theory Spec2Isabelle
  imports Main
begin

section \<open>JavaScript values used by the field selector\<close>

subsection \<open>Strings\<close>

text \<open>
  A JavaScript string is a sequence of code units; here a \<^typ>\<open>char\<close> stands for one code
  unit in the range 0..255. \<open>String.prototype.trim\<close> removes WhiteSpace and LineTerminator
  code units from both ends; in this range these are TAB, LF, VT, FF, CR, SPACE and NBSP.
\<close>

definition is_white_space :: "char \<Rightarrow> bool" where
  "is_white_space c =
     (c \<in> set [CHR 0x09, CHR 0x0A, CHR 0x0B, CHR 0x0C, CHR 0x0D, CHR 0x20, CHR 0xA0])"

definition trim :: "string \<Rightarrow> string" where
  "trim s = rev (dropWhile is_white_space (rev (dropWhile is_white_space s)))"

definition startsWith :: "string \<Rightarrow> string \<Rightarrow> bool" where
  "startsWith s p = (take (length p) s = p)"

definition slice :: "string \<Rightarrow> nat \<Rightarrow> string" where
  "slice s n = drop n s"

text \<open>
  \<open>input.split(separator)\<close>: the pieces between the non-overlapping occurrences of the
  separator, found from left to right. An empty separator splits into single code units.
\<close>

fun split_from :: "string \<Rightarrow> string \<Rightarrow> string \<Rightarrow> string list" where
  "split_from sep cur [] = [cur]"
| "split_from sep cur (c # cs) =
     (if sep \<noteq> [] \<and> take (length sep) (c # cs) = sep
      then cur # split_from sep [] (drop (length sep) (c # cs))
      else split_from sep (cur @ [c]) cs)"

definition split :: "string \<Rightarrow> string \<Rightarrow> string list" where
  "split input sep = (if sep = [] then map (\<lambda>c. [c]) input else split_from sep [] input)"

text \<open>\<open>fields.join(', ')\<close>\<close>

fun join :: "string \<Rightarrow> string list \<Rightarrow> string" where
  "join sep [] = []"
| "join sep [x] = x"
| "join sep (x # y # ys) = x @ sep @ join sep (y # ys)"

subsection \<open>Sets\<close>

text \<open>
  A JavaScript \<open>Set\<close> keeps its members in insertion order and ignores the insertion of a
  member it already has. It is modelled by the list of its members in that order.
  \<open>Array.from(s)\<close> is that list.
\<close>

type_synonym 'a js_set = "'a list"

definition set_has :: "'a js_set \<Rightarrow> 'a \<Rightarrow> bool" where
  "set_has s x = (x \<in> set s)"

definition set_add :: "'a js_set \<Rightarrow> 'a \<Rightarrow> 'a js_set" where
  "set_add s x = (if set_has s x then s else s @ [x])"

definition set_add_all :: "'a js_set \<Rightarrow> 'a list \<Rightarrow> 'a js_set" where
  "set_add_all s xs = fold (\<lambda>x acc. set_add acc x) xs s"

definition new_Set :: "'a list \<Rightarrow> 'a js_set" where
  "new_Set xs = set_add_all [] xs"

definition set_size :: "'a js_set \<Rightarrow> nat" where
  "set_size s = length s"

definition Array_from :: "'a js_set \<Rightarrow> 'a list" where
  "Array_from s = s"

subsection \<open>Exceptions\<close>

text \<open>
  The constructor throws \<open>new Error(message)\<close>; the runtime itself throws a
  \<open>TypeError\<close> (its message depends on the engine and is left out).
\<close>

datatype js_error = Error string | TypeError

section \<open>The selector's data\<close>

text \<open>
  \<open>FieldSelectorOptions\<close>. The two lists are optional here although the interface
  declares them required: the constructor tests \<open>availableFields?.length\<close>, and the tests
  of the repository pass options without them. \<open>fieldGroups\<close> is the list
  \<open>Object.entries(fieldGroups)\<close>, in the enumeration order of the supplied object.
\<close>

record FieldSelectorOptions =
  availableFields :: "string list option"
  defaultFields :: "string list option"
  fieldGroups :: "(string \<times> string list) list option"

record FieldSelectorConfig =
  queryParam :: "string option"
  headerName :: "string option"
  separator :: "string option"

text \<open>\<open>Required<FieldSelectorConfig>\<close>, the member \<open>this.config\<close>.\<close>

record Config =
  config_queryParam :: string
  config_headerName :: string
  config_separator :: string

text \<open>
  The member \<open>this.fieldGroups\<close> is created as the object literal \<open>{}\<close>: an ordinary
  object whose prototype is \<open>Object.prototype\<close>. Reading \<open>this.fieldGroups[name]\<close> finds
  an own property first and an inherited one otherwise, and the assignment
  \<open>this.fieldGroups[name] = value\<close> creates an own property unless an inherited accessor
  takes it: the accessor \<open>__proto__\<close> of \<open>Object.prototype\<close> replaces the prototype of the
  object by the assigned \<open>Set\<close>. So the object is its own properties together with its
  prototype: \<open>None\<close> for \<open>Object.prototype\<close>, \<open>Some s\<close> for a \<open>Set\<close> instance \<open>s\<close>
  (whose prototype chain is \<open>Set.prototype\<close>, then \<open>Object.prototype\<close>).
\<close>

record FieldGroups =
  own_groups :: "string \<rightharpoonup> string js_set"
  prototype_set :: "string js_set option"

definition empty_object :: FieldGroups where
  "empty_object = \<lparr>own_groups = Map.empty, prototype_set = None\<rparr>"

text \<open>
  The string-keyed properties of \<open>Object.prototype\<close> and of \<open>Set.prototype\<close> (the last
  seven of \<open>Set.prototype\<close> are the set methods of ECMAScript 2025).
\<close>

definition object_prototype_keys :: "string list" where
  "object_prototype_keys =
     [''constructor'', ''__defineGetter__'', ''__defineSetter__'', ''hasOwnProperty'',
      ''__lookupGetter__'', ''__lookupSetter__'', ''isPrototypeOf'', ''propertyIsEnumerable'',
      ''toString'', ''valueOf'', ''__proto__'', ''toLocaleString'']"

definition set_prototype_keys :: "string list" where
  "set_prototype_keys =
     [''constructor'', ''has'', ''add'', ''delete'', ''clear'', ''entries'', ''forEach'',
      ''size'', ''values'', ''keys'', ''union'', ''intersection'', ''difference'',
      ''symmetricDifference'', ''isSubsetOf'', ''isSupersetOf'', ''isDisjointFrom'']"

text \<open>
  What \<open>this.fieldGroups[name]\<close> evaluates to: \<open>undefined\<close>, a \<open>Set\<close>, or an inherited
  built-in (a function, or \<open>Object.prototype\<close> itself for \<open>__proto__\<close>), which is truthy
  and has no method \<open>forEach\<close>. The getter \<open>size\<close> of \<open>Set.prototype\<close> throws a
  \<open>TypeError\<close> when it is reached through an object that is not a \<open>Set\<close>.
\<close>

datatype property_value = Undefined | SetObject "string js_set" | BuiltIn

definition fieldGroups_get :: "FieldGroups \<Rightarrow> string \<Rightarrow> js_error + property_value" where
  "fieldGroups_get fg name =
     (case own_groups fg name of
        Some s \<Rightarrow> Inr (SetObject s)
      | None \<Rightarrow>
          (case prototype_set fg of
             None \<Rightarrow> Inr (if name \<in> set object_prototype_keys then BuiltIn else Undefined)
           | Some s \<Rightarrow>
               if name = ''size'' then Inl TypeError
               else if name = ''__proto__'' then Inr (SetObject s)
               else if name \<in> set set_prototype_keys \<or> name \<in> set object_prototype_keys
               then Inr BuiltIn
               else Inr Undefined))"

text \<open>
  \<open>this.fieldGroups[name] = s\<close> in strict code (a class body): an inherited accessor
  without a setter (\<open>size\<close>) makes the assignment throw a \<open>TypeError\<close>.
\<close>

definition fieldGroups_set :: "FieldGroups \<Rightarrow> string \<Rightarrow> string js_set \<Rightarrow> js_error + FieldGroups" where
  "fieldGroups_set fg name s =
     (if own_groups fg name \<noteq> None then Inr (fg\<lparr>own_groups := (own_groups fg)(name \<mapsto> s)\<rparr>)
      else if name = ''__proto__'' then Inr (fg\<lparr>prototype_set := Some s\<rparr>)
      else if prototype_set fg \<noteq> None \<and> name = ''size'' then Inl TypeError
      else Inr (fg\<lparr>own_groups := (own_groups fg)(name \<mapsto> s)\<rparr>))"

text \<open>The private members of a \<open>FieldSelector\<close>.\<close>

record FieldSelector =
  this_availableFields :: "string js_set"
  this_defaultFields :: "string js_set"
  this_fieldGroups :: FieldGroups
  this_config :: Config

section \<open>Construction\<close>

text \<open>\<open>fields.every((field) => availableFields.includes(field))\<close>\<close>

definition every_included :: "string list \<Rightarrow> string list \<Rightarrow> bool" where
  "every_included flds available = list_all (\<lambda>field. field \<in> set available) flds"

text \<open>The body of \<open>Object.entries(fieldGroups).forEach(...)\<close>, entry by entry.\<close>

fun register_groups ::
  "string list \<Rightarrow> (string \<times> string list) list \<Rightarrow> FieldGroups \<Rightarrow> js_error + FieldGroups" where
  "register_groups available [] fg = Inr fg"
| "register_groups available ((groupName, flds) # rest) fg =
     (if \<not> every_included flds available
      then Inl (Error (''Group '' @ groupName @ '' contains invalid fields: '' @ join '', '' flds))
      else case fieldGroups_set fg groupName (new_Set flds) of
             Inl e \<Rightarrow> Inl e
           | Inr fg' \<Rightarrow> register_groups available rest fg')"

text \<open>\<open>config.x || d\<close>: a missing or empty string gives the default.\<close>

definition or_default :: "string option \<Rightarrow> string \<Rightarrow> string" where
  "or_default x d = (case x of None \<Rightarrow> d | Some s \<Rightarrow> if s = [] then d else s)"

text \<open>
  The two guards \<open>!availableFields?.length\<close> and \<open>!defaultFields?.length\<close> let a list pass
  that is present and not empty.
\<close>

definition constructor :: "FieldSelectorOptions \<Rightarrow> FieldSelectorConfig \<Rightarrow> js_error + FieldSelector" where
  "constructor options config =
     (case availableFields options of
        None \<Rightarrow> Inl (Error ''availableFields must be provided and non-empty'')
      | Some available \<Rightarrow>
          if available = [] then Inl (Error ''availableFields must be provided and non-empty'')
          else
            (case defaultFields options of
               None \<Rightarrow> Inl (Error ''defaultFields must be provided and non-empty'')
             | Some defaults \<Rightarrow>
                 if defaults = [] then Inl (Error ''defaultFields must be provided and non-empty'')
                 else if \<not> every_included defaults available
                 then Inl (Error ''Default fields has values not present in available fields'')
                 else
                   (case (case fieldGroups options of
                            None \<Rightarrow> Inr empty_object
                          | Some groups \<Rightarrow> register_groups available groups empty_object) of
                      Inl e \<Rightarrow> Inl e
                    | Inr fg \<Rightarrow>
                        Inr \<lparr>this_availableFields = new_Set available,
                             this_defaultFields = new_Set defaults,
                             this_fieldGroups = fg,
                             this_config =
                               \<lparr>config_queryParam = or_default (queryParam config) ''fields'',
                                config_headerName = or_default (headerName config) ''x-fields'',
                                config_separator = or_default (separator config) '',''\<rparr>\<rparr>)))"

definition getAvailableFields :: "FieldSelector \<Rightarrow> string list" where
  "getAvailableFields this = Array_from (this_availableFields this)"

definition getDefaultFields :: "FieldSelector \<Rightarrow> string list" where
  "getDefaultFields this = Array_from (this_defaultFields this)"

section \<open>Selection\<close>

text \<open>
  \<open>RequestParams\<close>: \<open>query\<close> and \<open>headers\<close> are optional records from keys to a string or
  a list of strings. They are made by the caller, and a record is taken as its interface
  declares it: a key has the value the record gives it, of one of the two declared shapes, or
  none.
\<close>

datatype param_value = Single string | Multiple "string list"

record RequestParams =
  query :: "(string \<rightharpoonup> param_value) option"
  headers :: "(string \<rightharpoonup> param_value) option"

text \<open>\<open>request.query?.[key]\<close>\<close>

definition optional_get :: "(string \<rightharpoonup> param_value) option \<Rightarrow> string \<Rightarrow> param_value option" where
  "optional_get r key = (case r of None \<Rightarrow> None | Some m \<Rightarrow> m key)"

text \<open>
  \<open>if (queryFields)\<close>: \<open>undefined\<close> and the empty string are falsy, every other string and
  every array (the empty one too) is truthy.
\<close>

definition truthy :: "param_value option \<Rightarrow> bool" where
  "truthy x = (case x of None \<Rightarrow> False | Some (Single s) \<Rightarrow> s \<noteq> [] | Some (Multiple l) \<Rightarrow> True)"

text \<open>
  \<open>Array.isArray(x) ? x[0] : x\<close>. The result \<open>None\<close> stands for \<open>undefined\<close> (the first
  element of an empty array) and for \<open>null\<close>; the caller only tests it with \<open>!\<close>.
\<close>

definition first_or_self :: "param_value option \<Rightarrow> string option" where
  "first_or_self x =
     (case x of
        None \<Rightarrow> None
      | Some (Single s) \<Rightarrow> Some s
      | Some (Multiple l) \<Rightarrow> (case l of [] \<Rightarrow> None | s # rest \<Rightarrow> Some s))"

definition extractFieldsFromRequest :: "FieldSelector \<Rightarrow> RequestParams \<Rightarrow> string option" where
  "extractFieldsFromRequest this request =
     (let queryFields = optional_get (query request) (config_queryParam (this_config this))
      in if truthy queryFields then first_or_self queryFields
         else
           (let headerFields = optional_get (headers request) (config_headerName (this_config this))
            in if truthy headerFields then first_or_self headerFields
               else None))"

text \<open>\<open>if (this.availableFields.has(field)) selectedFields.add(field)\<close>\<close>

definition add_if_available :: "FieldSelector \<Rightarrow> string js_set \<Rightarrow> string \<Rightarrow> string js_set" where
  "add_if_available this selectedFields field =
     (if set_has (this_availableFields this) field then set_add selectedFields field
      else selectedFields)"

text \<open>
  The loop of \<open>parseFieldsInput\<close> over the trimmed tokens. For a token that starts with
  \<open>@\<close> the property \<open>this.fieldGroups[field.slice(1)]\<close> is read: a truthy value is taken
  for a group and its method \<open>forEach\<close> is called, which a built-in does not have.
\<close>

fun resolve_tokens :: "FieldSelector \<Rightarrow> string list \<Rightarrow> string js_set \<Rightarrow> js_error + string js_set" where
  "resolve_tokens this [] selectedFields = Inr selectedFields"
| "resolve_tokens this (field # rest) selectedFields =
     (if startsWith field ''@''
      then
        (case fieldGroups_get (this_fieldGroups this) (slice field 1) of
           Inl e \<Rightarrow> Inl e
         | Inr BuiltIn \<Rightarrow> Inl TypeError
         | Inr (SetObject groupFields) \<Rightarrow>
             resolve_tokens this rest (set_add_all selectedFields groupFields)
         | Inr Undefined \<Rightarrow>
             resolve_tokens this rest (add_if_available this selectedFields field))
      else resolve_tokens this rest (add_if_available this selectedFields field))"

definition parseFieldsInput :: "FieldSelector \<Rightarrow> string \<Rightarrow> js_error + string js_set" where
  "parseFieldsInput this input =
     resolve_tokens this (map trim (split input (config_separator (this_config this)))) (new_Set [])"

definition getSelectedFields :: "FieldSelector \<Rightarrow> RequestParams \<Rightarrow> js_error + string js_set" where
  "getSelectedFields this request =
     (case extractFieldsFromRequest this request of
        None \<Rightarrow> Inr (this_defaultFields this)
      | Some fieldsInput \<Rightarrow>
          if fieldsInput = [] then Inr (this_defaultFields this)
          else
            (case parseFieldsInput this fieldsInput of
               Inl e \<Rightarrow> Inl e
             | Inr selectedFields \<Rightarrow>
                 if set_size selectedFields = 0 then Inr (this_defaultFields this)
                 else Inr selectedFields))"

section \<open>Filtering an object\<close>

text \<open>
  An object is given by \<open>Object.entries(obj)\<close>, its own enumerable string-keyed properties in
  enumeration order: the keys that are array indices (canonical decimal numerals below
  \<open>2^32 - 1\<close>) in ascending numeric order, then the other keys in the order of their
  creation. The values stay opaque: they are plain data, as \<open>JSON.parse\<close> yields them,
  with no accessor and no read-only property.
\<close>

definition is_digit :: "char \<Rightarrow> bool" where
  "is_digit c = (48 \<le> (of_char c :: nat) \<and> (of_char c :: nat) \<le> 57)"

definition number_of :: "string \<Rightarrow> nat" where
  "number_of s = foldl (\<lambda>n c. 10 * n + (of_char c - 48)) 0 s"

definition is_array_index :: "string \<Rightarrow> bool" where
  "is_array_index s =
     (case s of
        [] \<Rightarrow> False
      | c # cs \<Rightarrow> list_all is_digit s \<and> (if c = CHR ''0'' then cs = [] else True)
                 \<and> number_of s < 2 ^ 32 - 1)"

text \<open>A new own property with key \<open>k\<close> is enumerated before an existing key \<open>k'\<close>.\<close>

definition goes_before :: "string \<Rightarrow> string \<Rightarrow> bool" where
  "goes_before k k' =
     (is_array_index k \<and> (if is_array_index k' then number_of k < number_of k' else True))"

fun insert_property :: "string \<Rightarrow> 'v \<Rightarrow> (string \<times> 'v) list \<Rightarrow> (string \<times> 'v) list" where
  "insert_property k v [] = [(k, v)]"
| "insert_property k v ((k', v') # ps) =
     (if goes_before k k' then (k, v) # (k', v') # ps
      else (k', v') # insert_property k v ps)"

text \<open>
  \<open>result[key] = value\<close> on an object that was created as \<open>{}\<close>: an own property is
  overwritten in place; the key \<open>__proto__\<close> is taken by the accessor inherited from
  \<open>Object.prototype\<close>, which sets the prototype of \<open>result\<close> (for an object or \<open>null\<close>) or
  does nothing, and creates no own property; any other key becomes a new own property.
\<close>

definition object_assign :: "(string \<times> 'v) list \<Rightarrow> string \<Rightarrow> 'v \<Rightarrow> (string \<times> 'v) list" where
  "object_assign props k v =
     (if k \<in> set (map fst props)
      then map (\<lambda>(k', v'). if k' = k then (k', v) else (k', v')) props
      else if k = ''__proto__'' then props
      else insert_property k v props)"

definition filterObject :: "(string \<times> 'v) list \<Rightarrow> string js_set \<Rightarrow> (string \<times> 'v) list" where
  "filterObject obj selectedFields =
     fold (\<lambda>(key, val) result.
             if set_has selectedFields key then object_assign result key val else result)
       obj []"

text \<open>
  A list of keys is in enumeration order when no key occurs twice and no key stands before
  a key after which it would have been inserted: the array indices come first, ascending.
  The list \<open>Object.entries(obj)\<close> of any object has its keys in this order.
\<close>

definition enumeration_order :: "string list \<Rightarrow> bool" where
  "enumeration_order ks = (distinct ks \<and> sorted_wrt (\<lambda>k k'. \<not> goes_before k' k) ks)"

section \<open>An invariant of the registered groups\<close>

text \<open>
  Every \<open>Set\<close> reachable from \<open>this.fieldGroups\<close>, as an own property or as its prototype,
  holds only fields of the set \<open>A\<close>.
\<close>

definition groups_within :: "FieldGroups \<Rightarrow> string set \<Rightarrow> bool" where
  "groups_within fg A =
     ((\<forall>s \<in> ran (own_groups fg). set s \<subseteq> A) \<and> (\<forall>s \<in> set_option (prototype_set fg). set s \<subseteq> A))"


section \<open>Example values\<close>

text \<open>The options of the repository's test suite, used with no configuration.\<close>

definition no_config :: FieldSelectorConfig where
  "no_config = \<lparr>queryParam = None, headerName = None, separator = None\<rparr>"

definition example_options :: FieldSelectorOptions where
  "example_options =
     \<lparr>availableFields =
        Some [''id'', ''name'', ''email'', ''address'', ''phone'', ''createdAt'', ''updatedAt''],
      defaultFields = Some [''id'', ''name'', ''email''],
      fieldGroups =
        Some [(''basic'', [''id'', ''name'']), (''contact'', [''email'', ''phone'']),
              (''timestamps'', [''createdAt'', ''updatedAt''])]\<rparr>"

definition example_selector :: FieldSelector where
  "example_selector =
     \<lparr>this_availableFields =
        [''id'', ''name'', ''email'', ''address'', ''phone'', ''createdAt'', ''updatedAt''],
      this_defaultFields = [''id'', ''name'', ''email''],
      this_fieldGroups =
        \<lparr>own_groups =
           [''basic'' \<mapsto> [''id'', ''name''], ''contact'' \<mapsto> [''email'', ''phone''],
            ''timestamps'' \<mapsto> [''createdAt'', ''updatedAt'']],
         prototype_set = None\<rparr>,
      this_config =
        \<lparr>config_queryParam = ''fields'', config_headerName = ''x-fields'',
         config_separator = '',''\<rparr>\<rparr>"

text \<open>A request whose query holds one string under the key \<open>fields\<close>.\<close>

definition query_request :: "string \<Rightarrow> RequestParams" where
  "query_request s = \<lparr>query = Some [''fields'' \<mapsto> Single s], headers = None\<rparr>"

section \<open>Sets: basic facts\<close>

lemma set_set_add: "set (set_add s x) = insert x (set s)"
  by (auto simp: set_add_def set_has_def)

lemma distinct_set_add: "distinct s \<Longrightarrow> distinct (set_add s x)"
  by (simp add: set_add_def set_has_def)

lemma set_set_add_all: "set (set_add_all s xs) = set s \<union> set xs"
  unfolding set_add_all_def
  by (induction xs arbitrary: s) (auto simp: set_set_add)

lemma distinct_set_add_all: "distinct s \<Longrightarrow> distinct (set_add_all s xs)"
  unfolding set_add_all_def
  by (induction xs arbitrary: s) (auto simp: distinct_set_add)

lemma set_new_Set: "set (new_Set xs) = set xs"
  by (simp add: new_Set_def set_set_add_all)

lemma distinct_new_Set: "distinct (new_Set xs)"
  by (simp add: new_Set_def distinct_set_add_all)

lemma new_Set_snoc: "new_Set (xs @ [x]) = set_add (new_Set xs) x"
  by (simp add: new_Set_def set_add_all_def)

lemma new_Set_keeps_first: "new_Set xs = rev (remdups (rev xs))"
proof (induction xs rule: rev_induct)
  case Nil
  show ?case by (simp add: new_Set_def set_add_all_def)
next
  case (snoc x xs)
  have "set (new_Set xs) = set xs" by (rule set_new_Set)
  with snoc show ?case
    by (simp add: new_Set_snoc set_add_def set_has_def)
qed

lemma new_Set_distinct: "distinct xs \<Longrightarrow> new_Set xs = xs"
  by (simp add: new_Set_keeps_first distinct_remdups_id)

lemma new_Set_empty_iff: "new_Set xs = [] \<longleftrightarrow> xs = []"
  using set_new_Set [of xs] by (metis set_empty)

section \<open>Construction: what it accepts and how it fails\<close>

lemma every_included_iff: "every_included flds available \<longleftrightarrow> set flds \<subseteq> set available"
  by (auto simp: every_included_def list_all_iff)

lemma constructor_Inr:
  assumes "constructor options config = Inr this"
  obtains available defaults fg where
    "availableFields options = Some available" "available \<noteq> []"
    "defaultFields options = Some defaults" "defaults \<noteq> []"
    "set defaults \<subseteq> set available"
    "(case fieldGroups options of None \<Rightarrow> Inr empty_object
      | Some groups \<Rightarrow> register_groups available groups empty_object) = Inr fg"
    "this_availableFields this = new_Set available"
    "this_defaultFields this = new_Set defaults"
    "this_fieldGroups this = fg"
    "this_config this =
       \<lparr>config_queryParam = or_default (queryParam config) ''fields'',
        config_headerName = or_default (headerName config) ''x-fields'',
        config_separator = or_default (separator config) '',''\<rparr>"
  using assms
  by (auto simp: constructor_def every_included_iff
           split: if_splits option.splits sum.splits)

lemma example_selector_constructed: "constructor example_options no_config = Inr example_selector"
  by (simp add: constructor_def example_options_def no_config_def example_selector_def
        every_included_def new_Set_def set_add_all_def set_add_def set_has_def
        fieldGroups_set_def empty_object_def or_default_def)

lemma fieldGroups_set_error: "fieldGroups_set fg name s = Inl e \<Longrightarrow> e = TypeError"
  by (auto simp: fieldGroups_set_def split: if_splits)

lemma register_groups_error:
  "register_groups available groups fg = Inl e \<Longrightarrow>
   e = TypeError \<or>
   (\<exists>g fs. e = Error (''Group '' @ g @ '' contains invalid fields: '' @ join '', '' fs))"
proof (induction groups arbitrary: fg)
  case Nil
  then show ?case by simp
next
  case (Cons entry rest)
  obtain g fs where entry: "entry = (g, fs)" by (cases entry)
  from Cons.prems Cons.IH show ?case
    unfolding entry by (auto split: if_splits sum.splits dest: fieldGroups_set_error)
qed



text \<open>
  An entry named \<open>__proto__\<close> makes its \<open>Set\<close> the prototype of \<open>this.fieldGroups\<close>; a later
  entry named \<open>size\<close> then meets the getter-only accessor of \<open>Set.prototype\<close>, and its
  assignment throws.
\<close>

lemma register_groups_proto_then_size:
  "register_groups [''id''] [(''__proto__'', [''id'']), (''size'', [''id''])] empty_object
     = Inl TypeError"
  by (simp add: every_included_def fieldGroups_set_def empty_object_def)

text \<open>
  C4 (as amended). The accessors return the members of the stored sets in insertion order:
  the supplied list in its original order with every occurrence of a field after its first
  removed. For a list without repeated fields this is the supplied list itself.
\<close>

theorem accessors_return_first_occurrences:
  assumes "constructor options config = Inr this"
    and "availableFields options = Some available"
    and "defaultFields options = Some defaults"
  shows "getAvailableFields this = rev (remdups (rev available))
       \<and> getDefaultFields this = rev (remdups (rev defaults))
       \<and> (distinct available \<longrightarrow> getAvailableFields this = available)
       \<and> (distinct defaults \<longrightarrow> getDefaultFields this = defaults)"
  using assms
  by (elim constructor_Inr)
     (simp add: getAvailableFields_def getDefaultFields_def Array_from_def new_Set_keeps_first
        distinct_remdups_id)

theorem accessors_return_first_occurrences_witness:
  "constructor example_options no_config = Inr example_selector
   \<and> distinct [''id'', ''name'', ''email'', ''address'', ''phone'', ''createdAt'', ''updatedAt'']
   \<and> distinct [''id'', ''name'', ''email'']
   \<and> getAvailableFields example_selector =
       [''id'', ''name'', ''email'', ''address'', ''phone'', ''createdAt'', ''updatedAt'']
   \<and> getDefaultFields example_selector = [''id'', ''name'', ''email'']"
  using accessors_return_first_occurrences [OF example_selector_constructed,
      of "[''id'', ''name'', ''email'', ''address'', ''phone'', ''createdAt'', ''updatedAt'']"
         "[''id'', ''name'', ''email'']"]
    example_selector_constructed
  by (simp add: example_options_def)

text \<open>
  C4 as stated fails when a supplied list repeats a field: for
  \<open>availableFields = ['id', 'name', 'id']\<close> the accessor returns \<open>['id', 'name']\<close>.
\<close>

theorem accessors_original_list_counterexample:
  "constructor
     \<lparr>availableFields = Some [''id'', ''name'', ''id''], defaultFields = Some [''id''],
      fieldGroups = None\<rparr> no_config
   = Inr \<lparr>this_availableFields = [''id'', ''name''], this_defaultFields = [''id''],
          this_fieldGroups = empty_object,
          this_config = \<lparr>config_queryParam = ''fields'', config_headerName = ''x-fields'',
                         config_separator = '',''\<rparr>\<rparr>
   \<and> getAvailableFields
       \<lparr>this_availableFields = [''id'', ''name''], this_defaultFields = [''id''],
        this_fieldGroups = empty_object,
        this_config = \<lparr>config_queryParam = ''fields'', config_headerName = ''x-fields'',
                       config_separator = '',''\<rparr>\<rparr>
     \<noteq> [''id'', ''name'', ''id'']"
  by (simp add: constructor_def no_config_def every_included_def new_Set_def
        set_add_all_def set_add_def set_has_def or_default_def getAvailableFields_def
        Array_from_def)

text \<open>
  C5 (as amended). Construction fails with the \<open>Error\<close> whose message is
  \<open>Default fields has values not present in available fields\<close> exactly when both lists
  are present and non-empty and some default field is not an available field: the check
  comes after the two non-emptiness checks, and it does not depend on the field groups,
  which are validated after it.
\<close>

theorem default_fields_error_iff:
  "constructor options config =
     Inl (Error ''Default fields has values not present in available fields'')
   \<longleftrightarrow> (\<exists>available defaults.
          availableFields options = Some available \<and> available \<noteq> [] \<and>
          defaultFields options = Some defaults \<and> defaults \<noteq> [] \<and>
          \<not> set defaults \<subseteq> set available)"
proof
  assume failed: "constructor options config =
     Inl (Error ''Default fields has values not present in available fields'')"
  from failed obtain available where
    av: "availableFields options = Some available" "available \<noteq> []"
    by (auto simp: constructor_def split: option.splits if_splits)
  with failed obtain defaults where
    df: "defaultFields options = Some defaults" "defaults \<noteq> []"
    by (auto simp: constructor_def split: option.splits if_splits)
  have "\<not> set defaults \<subseteq> set available"
  proof
    assume "set defaults \<subseteq> set available"
    then have sub: "every_included defaults available"
      by (simp add: every_included_iff)
    show False
    proof (cases "fieldGroups options")
      case None
      with failed av df sub show False
        by (simp add: constructor_def)
    next
      case (Some groups)
      with failed av df sub
      have "register_groups available groups empty_object =
              Inl (Error ''Default fields has values not present in available fields'')"
        by (simp add: constructor_def split: sum.splits)
      from register_groups_error [OF this] show False by auto
    qed
  qed
  with av df show "\<exists>available defaults.
          availableFields options = Some available \<and> available \<noteq> [] \<and>
          defaultFields options = Some defaults \<and> defaults \<noteq> [] \<and>
          \<not> set defaults \<subseteq> set available"
    by blast
next
  assume "\<exists>available defaults.
          availableFields options = Some available \<and> available \<noteq> [] \<and>
          defaultFields options = Some defaults \<and> defaults \<noteq> [] \<and>
          \<not> set defaults \<subseteq> set available"
  then obtain available defaults where
    "availableFields options = Some available" "available \<noteq> []"
    "defaultFields options = Some defaults" "defaults \<noteq> []"
    "\<not> set defaults \<subseteq> set available"
    by blast
  then show "constructor options config =
     Inl (Error ''Default fields has values not present in available fields'')"
    by (simp add: constructor_def every_included_iff)
qed

text \<open>
  The test of the repository for invalid default fields, here with an invalid group as
  well: the error is the one for the default fields.
\<close>

theorem default_fields_error_iff_witness:
  "constructor
     \<lparr>availableFields = Some [''id'', ''name''], defaultFields = Some [''id'', ''invalidField''],
      fieldGroups = Some [(''invalid'', [''id'', ''nonexistent''])]\<rparr> no_config
   = Inl (Error ''Default fields has values not present in available fields'')"
  using default_fields_error_iff
    [of "\<lparr>availableFields = Some [''id'', ''name''],
          defaultFields = Some [''id'', ''invalidField''],
          fieldGroups = Some [(''invalid'', [''id'', ''nonexistent''])]\<rparr>" no_config]
  by simp

text \<open>
  C5 as stated fails on the message: the message thrown is not
  \<open>default fields contain values not present in available fields\<close>.
\<close>

theorem default_fields_message_counterexample:
  "constructor
     \<lparr>availableFields = Some [''id'', ''name''], defaultFields = Some [''id'', ''invalidField''],
      fieldGroups = None\<rparr> no_config
   = Inl (Error ''Default fields has values not present in available fields'')
   \<and> constructor
     \<lparr>availableFields = Some [''id'', ''name''], defaultFields = Some [''id'', ''invalidField''],
      fieldGroups = None\<rparr> no_config
   \<noteq> Inl (Error ''default fields contain values not present in available fields'')"
  by (simp add: constructor_def every_included_def)




section \<open>Selection: what is returned\<close>

lemma groups_within_empty: "groups_within empty_object A"
  by (simp add: groups_within_def empty_object_def)

lemma groups_within_set:
  assumes "groups_within fg A" and "set s \<subseteq> A" and "fieldGroups_set fg name s = Inr fg'"
  shows "groups_within fg' A"
proof -
  have own: "\<And>t. t \<in> ran (own_groups fg) \<Longrightarrow> set t \<subseteq> A"
    and proto: "\<And>t. prototype_set fg = Some t \<Longrightarrow> set t \<subseteq> A"
    using assms(1) by (auto simp: groups_within_def)
  have upd: "\<And>t. t \<in> ran ((own_groups fg)(name \<mapsto> s)) \<Longrightarrow> set t \<subseteq> A"
  proof -
    fix t assume "t \<in> ran ((own_groups fg)(name \<mapsto> s))"
    then have "t = s \<or> t \<in> ran (own_groups fg)"
      by (auto simp: ran_def split: if_splits)
    with own assms(2) show "set t \<subseteq> A" by blast
  qed
  from assms(3) consider
      "fg' = fg\<lparr>own_groups := (own_groups fg)(name \<mapsto> s)\<rparr>"
    | "fg' = fg\<lparr>prototype_set := Some s\<rparr>"
    by (auto simp: fieldGroups_set_def split: if_splits)
  then show ?thesis
  proof cases
    case 1
    with upd proto show ?thesis by (auto simp: groups_within_def)
  next
    case 2
    with own assms(2) show ?thesis by (auto simp: groups_within_def)
  qed
qed

lemma groups_within_register:
  assumes "register_groups available groups fg = Inr fg'" and "groups_within fg (set available)"
  shows "groups_within fg' (set available)"
  using assms
proof (induction groups arbitrary: fg)
  case Nil
  then show ?case by simp
next
  case (Cons entry rest)
  obtain g fs where entry: "entry = (g, fs)" by (cases entry)
  from Cons.prems(1) obtain fg1 where
    ok: "set fs \<subseteq> set available" and
    step: "fieldGroups_set fg g (new_Set fs) = Inr fg1" and
    rest: "register_groups available rest fg1 = Inr fg'"
    unfolding entry by (auto simp: every_included_iff split: if_splits sum.splits)
  from groups_within_set [OF Cons.prems(2) _ step] ok have "groups_within fg1 (set available)"
    by (simp add: set_new_Set)
  from Cons.IH [OF rest this] show ?case .
qed

lemma groups_within_constructor:
  assumes "constructor options config = Inr this"
  shows "groups_within (this_fieldGroups this) (set (this_availableFields this))"
  using assms
proof (rule constructor_Inr)
  fix available defaults fg
  assume reg: "(case fieldGroups options of None \<Rightarrow> Inr empty_object
      | Some groups \<Rightarrow> register_groups available groups empty_object) = Inr fg"
    and av: "this_availableFields this = new_Set available"
    and fg: "this_fieldGroups this = fg"
  have "groups_within fg (set available)"
  proof (cases "fieldGroups options")
    case None
    with reg show ?thesis by (auto simp: groups_within_empty)
  next
    case (Some groups)
    with reg show ?thesis by (auto intro: groups_within_register groups_within_empty)
  qed
  with av fg show ?thesis by (simp add: set_new_Set)
qed

lemma defaults_within_constructor:
  assumes "constructor options config = Inr this"
  shows "set (this_defaultFields this) \<subseteq> set (this_availableFields this)"
    and "this_defaultFields this \<noteq> []"
proof -
  from assms obtain available defaults where
    "defaults \<noteq> []" "set defaults \<subseteq> set available"
    "this_availableFields this = new_Set available" "this_defaultFields this = new_Set defaults"
    by (rule constructor_Inr)
  then show "set (this_defaultFields this) \<subseteq> set (this_availableFields this)"
    and "this_defaultFields this \<noteq> []"
    by (simp_all add: set_new_Set new_Set_empty_iff)
qed

lemma fieldGroups_get_within:
  assumes "fieldGroups_get fg name = Inr (SetObject s)" and "groups_within fg A"
  shows "set s \<subseteq> A"
  using assms
  by (auto simp: fieldGroups_get_def groups_within_def ran_def
           split: option.splits if_splits)

lemma set_add_if_available:
  "set (add_if_available this sel field) \<subseteq> set sel \<union> set (this_availableFields this)"
  by (auto simp: add_if_available_def set_set_add set_has_def)

lemma resolve_tokens_within:
  assumes "resolve_tokens this tokens sel = Inr result"
    and "groups_within (this_fieldGroups this) A"
    and "set (this_availableFields this) \<subseteq> A"
    and "set sel \<subseteq> A"
  shows "set result \<subseteq> A"
  using assms
proof (induction this tokens sel rule: resolve_tokens.induct)
  case (1 this sel)
  then show ?case by simp
next
  case (2 this field rest sel)
  have add: "set (add_if_available this sel field) \<subseteq> A"
    using set_add_if_available [of this sel field] "2.prems"(3,4) by blast
  show ?case
  proof (cases "startsWith field ''@''")
    case False
    with "2.prems" "2.IH" add show ?thesis by simp
  next
    case True
    show ?thesis
    proof (cases "fieldGroups_get (this_fieldGroups this) (slice field 1)")
      case (Inl e)
      with True "2.prems"(1) show ?thesis by simp
    next
      case (Inr v)
      show ?thesis
      proof (cases v)
        case Undefined
        with True Inr "2.prems" "2.IH" add show ?thesis by simp
      next
        case (SetObject g)
        with Inr "2.prems"(2) have "set g \<subseteq> A"
          by (auto dest: fieldGroups_get_within)
        with "2.prems"(4) have "set (set_add_all sel g) \<subseteq> A"
          by (simp add: set_set_add_all)
        with True Inr SetObject "2.prems" "2.IH" show ?thesis by simp
      next
        case BuiltIn
        with True Inr "2.prems"(1) show ?thesis by simp
      qed
    qed
  qed
qed

lemma getSelectedFields_cases:
  assumes "getSelectedFields this request = Inr selected"
  shows "selected = this_defaultFields this
       \<or> (selected \<noteq> [] \<and> (\<exists>input. parseFieldsInput this input = Inr selected))"
  using assms
  by (auto simp: getSelectedFields_def set_size_def split: option.splits if_splits sum.splits)

lemmas string_defs =
  split_def split_from.simps trim_def is_white_space_def startsWith_def slice_def

lemmas set_defs = set_has_def set_add_def set_add_all_def new_Set_def set_size_def

lemmas selection_defs =
  getSelectedFields_def extractFieldsFromRequest_def optional_get_def truthy_def
  first_or_self_def parseFieldsInput_def add_if_available_def fieldGroups_get_def
  object_prototype_keys_def set_prototype_keys_def

lemmas example_defs = example_selector_def query_request_def

text \<open>Selections of the repository's test suite.\<close>

lemma example_group_selection:
  "getSelectedFields example_selector (query_request ''@basic,phone'')
     = Inr [''id'', ''name'', ''phone'']"
  by (simp add: selection_defs string_defs set_defs example_defs)

lemma example_trimmed_selection:
  "getSelectedFields example_selector (query_request '' id , name , phone '')
     = Inr [''id'', ''name'', ''phone'']"
  by (simp add: selection_defs string_defs set_defs example_defs)

lemma example_unknown_group_ignored:
  "getSelectedFields example_selector (query_request ''@invalid,id,name'')
     = Inr [''id'', ''name'']"
  by (simp add: selection_defs string_defs set_defs example_defs)

lemma example_nothing_valid:
  "getSelectedFields example_selector (query_request ''invalid1,invalid2'')
     = Inr [''id'', ''name'', ''email'']"
  by (simp add: selection_defs string_defs set_defs example_defs)

text \<open>
  C1. Whatever a constructed selector returns for a request holds only available fields, or
  is the set of default fields (whose members are available fields as well).
\<close>

theorem selected_fields_available_or_default:
  assumes "constructor options config = Inr this"
    and "getSelectedFields this request = Inr selected"
  shows "set selected \<subseteq> set (this_availableFields this) \<or> selected = this_defaultFields this"
proof -
  from getSelectedFields_cases [OF assms(2)] show ?thesis
  proof
    assume "selected = this_defaultFields this"
    then show ?thesis ..
  next
    assume "selected \<noteq> [] \<and> (\<exists>input. parseFieldsInput this input = Inr selected)"
    then obtain input where "parseFieldsInput this input = Inr selected" by blast
    then have "set selected \<subseteq> set (this_availableFields this)"
      unfolding parseFieldsInput_def
      by (rule resolve_tokens_within)
         (simp_all add: groups_within_constructor [OF assms(1)] new_Set_def set_add_all_def)
    then show ?thesis ..
  qed
qed

theorem selected_fields_available_or_default_witness:
  "constructor example_options no_config = Inr example_selector
   \<and> getSelectedFields example_selector (query_request ''@basic,phone'')
       = Inr [''id'', ''name'', ''phone'']
   \<and> set [''id'', ''name'', ''phone''] \<subseteq> set (this_availableFields example_selector)"
proof -
  from selected_fields_available_or_default
    [OF example_selector_constructed example_group_selection]
  have "set [''id'', ''name'', ''phone''] \<subseteq> set (this_availableFields example_selector)
      \<or> [''id'', ''name'', ''phone''] = this_defaultFields example_selector" .
  then have "set [''id'', ''name'', ''phone''] \<subseteq> set (this_availableFields example_selector)"
    by (simp add: example_selector_def)
  with example_selector_constructed example_group_selection show ?thesis by simp
qed

text \<open>
  C9. What a constructed selector returns for a request is never the empty set: an empty
  parse result is replaced by the default fields, and these are not empty.
\<close>

theorem selected_fields_nonempty:
  assumes "constructor options config = Inr this"
    and "getSelectedFields this request = Inr selected"
  shows "selected \<noteq> []"
  using getSelectedFields_cases [OF assms(2)] defaults_within_constructor(2) [OF assms(1)]
  by auto

theorem selected_fields_nonempty_witness:
  "constructor example_options no_config = Inr example_selector
   \<and> getSelectedFields example_selector (query_request ''invalid1,invalid2'')
       = Inr [''id'', ''name'', ''email'']
   \<and> [''id'', ''name'', ''email''] \<noteq> ([] :: string list)"
  using selected_fields_nonempty [OF example_selector_constructed example_nothing_valid]
    example_selector_constructed example_nothing_valid
  by simp

section \<open>Selection: exceptions\<close>

text \<open>
  With the prototype \<open>Object.prototype\<close>, the loop over the tokens returns when no token
  \<open>@name\<close> names an inherited property that is not shadowed by a group.
\<close>

lemma resolve_tokens_returns:
  assumes "prototype_set (this_fieldGroups this) = None"
    and "\<forall>t \<in> set tokens. startsWith t ''@'' \<longrightarrow>
           own_groups (this_fieldGroups this) (slice t 1) \<noteq> None
           \<or> slice t 1 \<notin> set object_prototype_keys"
  shows "\<exists>r. resolve_tokens this tokens sel = Inr r"
  using assms
proof (induction tokens arbitrary: sel)
  case Nil
  show ?case by simp
next
  case (Cons t rest)
  from Cons.prems have rest: "\<And>sel'. \<exists>r. resolve_tokens this rest sel' = Inr r"
    by (intro Cons.IH) auto
  show ?case
  proof (cases "startsWith t ''@''")
    case False
    with rest show ?thesis by simp
  next
    case True
    with Cons.prems have
      "(\<exists>g. fieldGroups_get (this_fieldGroups this) (slice t 1) = Inr (SetObject g))
       \<or> fieldGroups_get (this_fieldGroups this) (slice t 1) = Inr Undefined"
      by (auto simp: fieldGroups_get_def split: option.splits)
    with True rest show ?thesis by auto
  qed
qed

text \<open>
  C2 fails on the code. A token \<open>@constructor\<close> (likewise \<open>@toString\<close>, \<open>@__proto__\<close>,
  ...) reads the property \<open>constructor\<close> that \<open>this.fieldGroups\<close> inherits from
  \<open>Object.prototype\<close>; the value is truthy, so it is taken for a group, and the call of its
  missing method \<open>forEach\<close> throws a \<open>TypeError\<close>. An unknown group such as \<open>@invalid\<close> is
  ignored, as the repository's test expects (\<open>example_unknown_group_ignored\<close>).
\<close>

theorem inherited_property_token_raises:
  "constructor example_options no_config = Inr example_selector
   \<and> getSelectedFields example_selector (query_request ''@constructor'') = Inl TypeError"
  using example_selector_constructed
  by (simp add: selection_defs string_defs set_defs example_defs)

section \<open>Selection: where the raw string comes from\<close>

text \<open>
  C3 (as amended). A query value that is present and is not the empty string is used, and the
  header is not looked at: of a sequence the first element is taken. When the query value is
  absent or is the empty string, the header value is used in the same way, and when that is
  absent or the empty string as well, the default fields are returned.
\<close>

theorem extraction_order:
  assumes "optional_get (query request) (config_queryParam (this_config this)) = q"
    and "optional_get (headers request) (config_headerName (this_config this)) = h"
  shows "(q \<noteq> None \<and> q \<noteq> Some (Single []) \<longrightarrow>
            extractFieldsFromRequest this request = first_or_self q)
       \<and> ((q = None \<or> q = Some (Single [])) \<and> h \<noteq> None \<and> h \<noteq> Some (Single []) \<longrightarrow>
            extractFieldsFromRequest this request = first_or_self h)
       \<and> ((q = None \<or> q = Some (Single [])) \<and> (h = None \<or> h = Some (Single [])) \<longrightarrow>
            extractFieldsFromRequest this request = None
            \<and> getSelectedFields this request = Inr (this_defaultFields this))
       \<and> (\<forall>s rest. first_or_self (Some (Multiple (s # rest))) = Some s)
       \<and> (\<forall>s. first_or_self (Some (Single s)) = Some s)"
proof -
  have t: "\<And>x. truthy x \<longleftrightarrow> x \<noteq> None \<and> x \<noteq> Some (Single [])"
    by (auto simp: truthy_def split: option.splits param_value.splits)
  show ?thesis
    using assms
    by (auto simp: extractFieldsFromRequest_def getSelectedFields_def t Let_def first_or_self_def)
qed

theorem extraction_order_witness:
  "extractFieldsFromRequest example_selector
     \<lparr>query = Some [''fields'' \<mapsto> Multiple [''id,name'', ''phone'']],
      headers = Some [''x-fields'' \<mapsto> Single ''email'']\<rparr> = Some ''id,name''
   \<and> extractFieldsFromRequest example_selector
     \<lparr>query = Some [''fields'' \<mapsto> Single ''''],
      headers = Some [''x-fields'' \<mapsto> Multiple [''phone'', ''id'']]\<rparr> = Some ''phone''
   \<and> getSelectedFields example_selector
     \<lparr>query = Some [''other'' \<mapsto> Single ''id''], headers = Some [''x-fields'' \<mapsto> Single '''']\<rparr>
     = Inr [''id'', ''name'', ''email'']"
proof -
  have cfg: "config_queryParam (this_config example_selector) = ''fields''"
    "config_headerName (this_config example_selector) = ''x-fields''"
    "this_defaultFields example_selector = [''id'', ''name'', ''email'']"
    by (simp_all add: example_selector_def)
  have "extractFieldsFromRequest example_selector
     \<lparr>query = Some [''fields'' \<mapsto> Multiple [''id,name'', ''phone'']],
      headers = Some [''x-fields'' \<mapsto> Single ''email'']\<rparr>
     = first_or_self (Some (Multiple [''id,name'', ''phone'']))"
    using extraction_order [of _ example_selector "Some (Multiple [''id,name'', ''phone''])"
        "Some (Single ''email'')"]
    by (simp add: cfg optional_get_def)
  moreover have "extractFieldsFromRequest example_selector
     \<lparr>query = Some [''fields'' \<mapsto> Single ''''],
      headers = Some [''x-fields'' \<mapsto> Multiple [''phone'', ''id'']]\<rparr>
     = first_or_self (Some (Multiple [''phone'', ''id'']))"
    using extraction_order [of _ example_selector "Some (Single '''')"
        "Some (Multiple [''phone'', ''id''])"]
    by (simp add: cfg optional_get_def)
  moreover have "getSelectedFields example_selector
     \<lparr>query = Some [''other'' \<mapsto> Single ''id''], headers = Some [''x-fields'' \<mapsto> Single '''']\<rparr>
     = Inr (this_defaultFields example_selector)"
    using extraction_order [of _ example_selector None "Some (Single '''')"]
    by (simp add: cfg optional_get_def)
  ultimately show ?thesis
    by (simp add: cfg first_or_self_def)
qed

text \<open>
  C3 as stated fails for a query value that is present as the empty string: the header is
  consulted, and its selection is returned instead of the default fields.
\<close>

theorem empty_query_string_counterexample:
  "getSelectedFields example_selector
     \<lparr>query = Some [''fields'' \<mapsto> Single ''''], headers = Some [''x-fields'' \<mapsto> Single ''id'']\<rparr>
     = Inr [''id'']
   \<and> getSelectedFields example_selector
     \<lparr>query = Some [''fields'' \<mapsto> Single ''''], headers = None\<rparr>
     = Inr [''id'', ''name'', ''email'']"
  by (simp add: selection_defs string_defs set_defs example_defs)

text \<open>
  C10. A query value that is an empty sequence is truthy, so it is used: its first element
  is \<open>undefined\<close>, no raw string is extracted, the header is not looked at, and the default
  fields are returned.
\<close>

theorem empty_sequence_query_gives_defaults:
  assumes "optional_get (query request) (config_queryParam (this_config this)) = Some (Multiple [])"
  shows "extractFieldsFromRequest this request = None
       \<and> getSelectedFields this request = Inr (this_defaultFields this)"
  using assms
  by (simp add: extractFieldsFromRequest_def getSelectedFields_def truthy_def first_or_self_def)

theorem empty_sequence_query_gives_defaults_witness:
  "extractFieldsFromRequest example_selector
     \<lparr>query = Some [''fields'' \<mapsto> Multiple []],
      headers = Some [''x-fields'' \<mapsto> Single ''id,name,phone'']\<rparr> = None
   \<and> getSelectedFields example_selector
     \<lparr>query = Some [''fields'' \<mapsto> Multiple []],
      headers = Some [''x-fields'' \<mapsto> Single ''id,name,phone'']\<rparr>
     = Inr [''id'', ''name'', ''email'']"
  using empty_sequence_query_gives_defaults [of
      "\<lparr>query = Some [''fields'' \<mapsto> Multiple []],
        headers = Some [''x-fields'' \<mapsto> Single ''id,name,phone'']\<rparr>" example_selector]
  by (simp add: example_selector_def optional_get_def)

section \<open>Filtering: which entries are kept\<close>

lemma insert_property_last:
  "\<forall>k' \<in> fst ` set ps. \<not> goes_before k k' \<Longrightarrow> insert_property k v ps = ps @ [(k, v)]"
  by (induction ps) auto

lemma keys_insert_property: "fst ` set (insert_property k v ps) = insert k (fst ` set ps)"
proof (induction ps)
  case Nil
  show ?case by simp
next
  case (Cons p ps)
  obtain k' v' where p: "p = (k', v')" by (cases p)
  from Cons show ?case unfolding p by (simp add: insert_commute)
qed

lemma map_fst_update:
  "map fst (map (\<lambda>(k', v'). if k' = k then (k', v) else (k', v')) ps) = map fst ps"
  by (induction ps) auto

lemma keys_update:
  "fst ` set (map (\<lambda>(k', v'). if k' = k then (k', v) else (k', v')) ps) = fst ` set ps"
proof -
  have "set (map fst (map (\<lambda>(k', v'). if k' = k then (k', v) else (k', v')) ps))
      = set (map fst ps)"
    by (simp only: map_fst_update)
  then show ?thesis by (simp only: set_map)
qed

lemma keys_object_assign:
  "fst ` set (object_assign ps k v) \<subseteq> insert k (fst ` set ps)"
proof (cases "k \<in> fst ` set ps")
  case True
  then have "object_assign ps k v = map (\<lambda>(k', v'). if k' = k then (k', v) else (k', v')) ps"
    by (simp add: object_assign_def)
  then show ?thesis by (simp only: keys_update) blast
next
  case False
  then show ?thesis
    by (cases "k = ''__proto__''")
       (simp_all add: object_assign_def keys_insert_property subset_insertI)
qed

lemma object_assign_proto:
  "''__proto__'' \<notin> fst ` set ps \<Longrightarrow> object_assign ps ''__proto__'' v = ps"
  by (simp add: object_assign_def)

lemma goes_before_trans:
  assumes "goes_before k k'" and "\<not> goes_before k'' k'"
  shows "\<not> goes_before k'' k"
  using assms by (auto simp: goes_before_def split: if_splits)

lemma goes_before_asym: "goes_before k k' \<Longrightarrow> \<not> goes_before k' k"
  by (auto simp: goes_before_def split: if_splits)

lemma sorted_insert_property:
  assumes "sorted_wrt (\<lambda>k k'. \<not> goes_before k' k) (map fst ps)"
  shows "sorted_wrt (\<lambda>k k'. \<not> goes_before k' k) (map fst (insert_property k v ps))"
  using assms
proof (induction ps)
  case Nil
  show ?case by simp
next
  case (Cons p ps)
  obtain k' v' where p: "p = (k', v')" by (cases p)
  show ?case
  proof (cases "goes_before k k'")
    case True
    have "\<not> goes_before k' k" using True by (rule goes_before_asym)
    moreover have "\<forall>x \<in> fst ` set ps. \<not> goes_before x k"
      using Cons.prems goes_before_trans [OF True] unfolding p by auto
    ultimately show ?thesis using Cons.prems True unfolding p by simp
  next
    case False
    with Cons show ?thesis unfolding p
      by (auto simp: keys_insert_property)
  qed
qed

lemma distinct_insert_property:
  "distinct (map fst ps) \<Longrightarrow> k \<notin> fst ` set ps \<Longrightarrow> distinct (map fst (insert_property k v ps))"
  by (induction ps) (auto simp: keys_insert_property)

lemma enumeration_order_object_assign:
  assumes "enumeration_order (map fst ps)"
  shows "enumeration_order (map fst (object_assign ps k v))"
proof -
  consider "k \<in> fst ` set ps" | "k \<notin> fst ` set ps" "k = ''__proto__''"
    | "k \<notin> fst ` set ps" "k \<noteq> ''__proto__''"
    by blast
  then show ?thesis
  proof cases
    case 1
    then have "object_assign ps k v = map (\<lambda>(k', v'). if k' = k then (k', v) else (k', v')) ps"
      by (simp add: object_assign_def)
    with assms show ?thesis by (simp only: map_fst_update)
  next
    case 2
    with assms show ?thesis by (simp add: object_assign_def)
  next
    case 3
    with assms show ?thesis
      by (simp add: object_assign_def enumeration_order_def sorted_insert_property
            distinct_insert_property)
  qed
qed

lemma filterObject_snoc:
  "filterObject (obj @ [(k, v)]) s =
     (if set_has s k then object_assign (filterObject obj s) k v else filterObject obj s)"
  by (simp add: filterObject_def)

lemma filterObject_Nil: "filterObject [] s = []"
  by (simp add: filterObject_def)

lemma enumeration_order_filterObject: "enumeration_order (map fst (filterObject obj s))"
proof (induction obj rule: rev_induct)
  case Nil
  show ?case by (simp add: filterObject_Nil enumeration_order_def)
next
  case (snoc p obj)
  obtain k v where p: "p = (k, v)" by (cases p)
  from snoc show ?case unfolding p
    by (simp add: filterObject_snoc enumeration_order_object_assign)
qed

lemma keys_filterObject:
  "fst ` set (filterObject obj s) \<subseteq> set s - {''__proto__''}"
proof (induction obj rule: rev_induct)
  case Nil
  show ?case by (simp add: filterObject_Nil)
next
  case (snoc p obj)
  obtain k v where p: "p = (k, v)" by (cases p)
  show ?case
  proof (cases "set_has s k")
    case False
    with snoc show ?thesis unfolding p by (simp add: filterObject_snoc)
  next
    case True
    then have ks: "k \<in> set s" by (simp add: set_has_def)
    show ?thesis
    proof (cases "k = ''__proto__''")
      case True
      with snoc have "''__proto__'' \<notin> fst ` set (filterObject obj s)" by auto
      with snoc True \<open>set_has s k\<close> show ?thesis unfolding p
        by (simp add: filterObject_snoc object_assign_proto)
    next
      case False
      with snoc ks keys_object_assign [of "filterObject obj s" k v]
      have "fst ` set (object_assign (filterObject obj s) k v) \<subseteq> set s - {''__proto__''}"
        by blast
      with \<open>set_has s k\<close> show ?thesis unfolding p
        by (simp add: filterObject_snoc)
    qed
  qed
qed

text \<open>
  For an object given in enumeration order, the result holds the entries whose key is in
  the field set and is not \<open>__proto__\<close>, with their values, in the order of the object.
\<close>

lemma filterObject_entries:
  assumes "enumeration_order (map fst obj)"
  shows "filterObject obj s = filter (\<lambda>(k, v). k \<in> set s \<and> k \<noteq> ''__proto__'') obj"
  using assms
proof (induction obj rule: rev_induct)
  case Nil
  show ?case by (simp add: filterObject_Nil)
next
  case (snoc p obj)
  obtain k v where p: "p = (k, v)" by (cases p)
  from snoc.prems have order: "enumeration_order (map fst obj)"
    and fresh: "k \<notin> fst ` set obj"
    and last: "\<forall>k' \<in> fst ` set obj. \<not> goes_before k k'"
    unfolding p by (auto simp: enumeration_order_def sorted_wrt_append)
  let ?kept = "filter (\<lambda>(k, v). k \<in> set s \<and> k \<noteq> ''__proto__'') obj"
  from snoc.IH [OF order] have IH: "filterObject obj s = ?kept" .
  have fresh': "k \<notin> fst ` set ?kept" using fresh by auto
  have last': "\<forall>k' \<in> fst ` set ?kept. \<not> goes_before k k'" using last by auto
  show ?case
  proof (cases "k \<in> set s")
    case False
    with IH show ?thesis unfolding p by (simp add: filterObject_snoc set_has_def)
  next
    case True
    show ?thesis
    proof (cases "k = ''__proto__''")
      case True
      with \<open>k \<in> set s\<close> IH fresh' show ?thesis unfolding p
        by (simp add: filterObject_snoc set_has_def object_assign_def)
    next
      case False
      with True IH fresh' insert_property_last [OF last', of v] show ?thesis unfolding p
        by (simp add: filterObject_snoc set_has_def object_assign_def)
    qed
  qed
qed

lemmas object_defs =
  filterObject_def object_assign_def set_has_def goes_before_def is_array_index_def
  is_digit_def number_of_def

text \<open>The filtering of the repository's test suite, and one with array indices as keys.\<close>

lemma example_filterObject:
  "filterObject
     [(''id'', ''1''), (''name'', ''John''), (''email'', ''john@example.com''),
      (''phone'', ''123456789''), (''address'', ''123 Main St'')]
     [''id'', ''name'', ''phone'']
   = [(''id'', ''1''), (''name'', ''John''), (''phone'', ''123456789'')]"
  by (simp add: object_defs)

lemma example_filterObject_indices:
  "enumeration_order (map fst [(''7'', a), (''10'', b), (''y'', c), (''x'', d)])
   \<and> filterObject [(''7'', a), (''10'', b), (''y'', c), (''x'', d)] [''x'', ''10'', ''7'']
     = [(''7'', a), (''10'', b), (''x'', d)]"
  by (simp add: enumeration_order_def object_defs)

text \<open>
  C6 fails on the code for the key \<open>__proto__\<close>. An object can have it as an own enumerable
  property (\<open>JSON.parse('{"id": 1, "__proto__": 2}')\<close>); when the field set has it too,
  \<open>result['__proto__'] = value\<close> goes to the accessor inherited from \<open>Object.prototype\<close> and
  the entry is missing from the result, although its key is a member of the field set. Every
  other entry is kept as claimed (\<open>filterObject_entries\<close>).
\<close>

theorem proto_entry_not_copied:
  "filterObject [(''id'', 1 :: nat), (''__proto__'', 2)] [''id'', ''__proto__''] = [(''id'', 1)]
   \<and> filter (\<lambda>(key, val). set_has [''id'', ''__proto__''] key)
        [(''id'', 1 :: nat), (''__proto__'', 2)]
     = [(''id'', 1), (''__proto__'', 2)]"
  by (simp add: object_defs)

text \<open>
  C8. Filtering the result of \<open>filterObject\<close> again with the same field set gives the same
  own enumerable properties, in the same order.
\<close>

theorem filterObject_idempotent:
  "filterObject (filterObject obj s) s = filterObject obj s"
proof -
  have "filterObject (filterObject obj s) s
      = filter (\<lambda>(k, v). k \<in> set s \<and> k \<noteq> ''__proto__'') (filterObject obj s)"
    by (rule filterObject_entries) (rule enumeration_order_filterObject)
  also have "\<dots> = filterObject obj s"
    using keys_filterObject [of obj s] by (intro filter_True) auto
  finally show ?thesis .
qed

theorem filterObject_idempotent_witness:
  "filterObject
     (filterObject
        [(''id'', ''1''), (''name'', ''John''), (''email'', ''john@example.com''),
         (''phone'', ''123456789''), (''address'', ''123 Main St'')]
        [''id'', ''name'', ''phone''])
     [''id'', ''name'', ''phone'']
   = [(''id'', ''1''), (''name'', ''John''), (''phone'', ''123456789'')]"
  using filterObject_idempotent
    [of "[(''id'', ''1''), (''name'', ''John''), (''email'', ''john@example.com''),
          (''phone'', ''123456789''), (''address'', ''123 Main St'')]"
        "[''id'', ''name'', ''phone'']"]
  by (simp only: example_filterObject)

end
